theory Spec2Isabelle
  imports Complex_Main
begin

section \<open>Python values, errors and the random generator\<close>

text \<open>
  The reading-session simulator of \<^verbatim>\<open>Proyecto1/01_simular_datos_lectura.py\<close>.
  Python floats are read as real numbers, with the three non-finite floats kept apart;
  every exception the code can raise is a value of \<open>error\<close>. What the process gets
  from outside is a parameter: the clock (\<^verbatim>\<open>datetime.now()\<close>), the builtin
  \<^verbatim>\<open>hash\<close> on strings (salted per process), the builtin parser \<^verbatim>\<open>float(str)\<close>
  and the stream of raw draws of the seeded generator.
\<close>

datatype error = ValueError | TypeError | OverflowError | KeyError | IndexError | ZeroDivisionError

datatype pyfloat = Fin real | PosInf | NegInf | NaN

datatype pyval = PyNone | PyInt int | PyFloat pyfloat | PyStr string

definition bind_r :: "error + 'a \<Rightarrow> ('a \<Rightarrow> error + 'b) \<Rightarrow> error + 'b" where
  "bind_r m f = (case m of Inl e \<Rightarrow> Inl e | Inr x \<Rightarrow> f x)"

text \<open>\<^verbatim>\<open>pd.isna\<close> / \<^verbatim>\<open>pd.notna\<close> on a scalar.\<close>

fun pd_isna :: "pyval \<Rightarrow> bool" where
  "pd_isna PyNone = True"
| "pd_isna (PyFloat NaN) = True"
| "pd_isna _ = False"

text \<open>\<^verbatim>\<open>float(v)\<close>; the parser of strings is the parameter \<open>fl\<close>.\<close>

fun py_float :: "(string \<Rightarrow> pyfloat option) \<Rightarrow> pyval \<Rightarrow> error + pyfloat" where
  "py_float fl PyNone = Inl TypeError"
| "py_float fl (PyInt i) = Inr (Fin (of_int i))"
| "py_float fl (PyFloat f) = Inr f"
| "py_float fl (PyStr s) = (case fl s of None \<Rightarrow> Inl ValueError | Some f \<Rightarrow> Inr f)"

definition py_trunc :: "real \<Rightarrow> int" where
  "py_trunc x = (if 0 \<le> x then \<lfloor>x\<rfloor> else \<lceil>x\<rceil>)"

text \<open>\<^verbatim>\<open>int(f)\<close> on a float.\<close>

fun py_int :: "pyfloat \<Rightarrow> error + int" where
  "py_int (Fin x) = Inr (py_trunc x)"
| "py_int NaN = Inl ValueError"
| "py_int PosInf = Inl OverflowError"
| "py_int NegInf = Inl OverflowError"

text \<open>The operand of an ordering comparison with a number: \<^verbatim>\<open>None\<close> and strings raise.\<close>

fun py_num :: "pyval \<Rightarrow> error + pyfloat" where
  "py_num (PyInt i) = Inr (Fin (of_int i))"
| "py_num (PyFloat f) = Inr f"
| "py_num PyNone = Inl TypeError"
| "py_num (PyStr s) = Inl TypeError"

fun f_ge :: "pyfloat \<Rightarrow> real \<Rightarrow> bool" where
  "f_ge (Fin x) c = (c \<le> x)"
| "f_ge PosInf c = True"
| "f_ge NegInf c = False"
| "f_ge NaN c = False"

fun f_le :: "pyfloat \<Rightarrow> real \<Rightarrow> bool" where
  "f_le (Fin x) c = (x \<le> c)"
| "f_le PosInf c = False"
| "f_le NegInf c = True"
| "f_le NaN c = False"

fun f_lt :: "pyfloat \<Rightarrow> real \<Rightarrow> bool" where
  "f_lt (Fin x) c = (x < c)"
| "f_lt PosInf c = False"
| "f_lt NegInf c = True"
| "f_lt NaN c = False"

text \<open>\<^verbatim>\<open>v == k\<close> for an integer literal \<open>k\<close>.\<close>

fun py_eq :: "pyval \<Rightarrow> int \<Rightarrow> bool" where
  "py_eq (PyInt i) k = (i = k)"
| "py_eq (PyFloat (Fin x)) k = (x = of_int k)"
| "py_eq _ k = False"

text \<open>
  \<^verbatim>\<open>if s > 0: p += min(s, 1.0) * w\<close> reads \<open>min(s, 1.0)\<close> only where \<open>s > 0\<close> holds:
  \<open>pos_capped s\<close> is that value there and \<open>None\<close> where the test fails.
  \<open>neg_abs_capped\<close> is the same for \<^verbatim>\<open>if s < 0: ... min(abs(s), 1.0)\<close>.
\<close>

fun pos_capped :: "pyfloat \<Rightarrow> real option" where
  "pos_capped (Fin x) = (if x > 0 then Some (min x 1) else None)"
| "pos_capped PosInf = Some 1"
| "pos_capped NegInf = None"
| "pos_capped NaN = None"

fun neg_abs_capped :: "pyfloat \<Rightarrow> real option" where
  "neg_abs_capped (Fin x) = (if x < 0 then Some (min \<bar>x\<bar> 1) else None)"
| "neg_abs_capped NegInf = Some 1"
| "neg_abs_capped PosInf = None"
| "neg_abs_capped NaN = None"

text \<open>
  The generator seeded by \<^verbatim>\<open>np.random.seed(42)\<close> is the stream of its raw draws.
  Each sampler call takes the next raw draw: a uniform sampler reduces it to \<open>[0,1)\<close>,
  the Gaussian sampler reads it as the standard normal deviate.
\<close>

type_synonym rng = "nat \<Rightarrow> real"

definition random_sample :: "rng \<Rightarrow> real \<times> rng" where
  "random_sample g = (frac (g 0), g \<circ> Suc)"

definition randint :: "int \<Rightarrow> int \<Rightarrow> rng \<Rightarrow> int \<times> rng" where
  "randint lo hi g = (let (u, g1) = random_sample g in (lo + \<lfloor>u * of_int (hi - lo)\<rfloor>, g1))"

definition uniform :: "real \<Rightarrow> real \<Rightarrow> rng \<Rightarrow> real \<times> rng" where
  "uniform lo hi g = (let (u, g1) = random_sample g in (lo + (hi - lo) * u, g1))"

definition normal :: "real \<Rightarrow> real \<Rightarrow> rng \<Rightarrow> error + real \<times> rng" where
  "normal mu sigma g = (if sigma < 0 then Inl ValueError else Inr (mu + sigma * g 0, g \<circ> Suc))"

text \<open>
  \<^verbatim>\<open>np.random.choice(xs, p=ps)\<close>: the first position whose cumulated probability
  exceeds the uniform draw; running off the end is an IndexError.
\<close>

fun choice_walk :: "'a list \<Rightarrow> real list \<Rightarrow> real \<Rightarrow> 'a option" where
  "choice_walk (x # xs) (p # ps) u = (if u < p then Some x else choice_walk xs ps (u - p))"
| "choice_walk _ _ u = None"

definition choice :: "'a list \<Rightarrow> real list \<Rightarrow> rng \<Rightarrow> error + 'a \<times> rng" where
  "choice xs ps g =
     (let (u, g1) = random_sample g
      in case choice_walk xs ps u of None \<Rightarrow> Inl IndexError | Some x \<Rightarrow> Inr (x, g1))"

section \<open>Dates\<close>

text \<open>
  A naive \<^verbatim>\<open>datetime\<close>: the proleptic Gregorian ordinal of its date and its time of
  day. \<^verbatim>\<open>weekday()\<close> is 0 on Monday; ordinal 1 is a Monday. Dates are taken inside
  the range of \<^verbatim>\<open>datetime\<close>.
\<close>

record datetime =
  ordinal :: int
  hour :: int
  minute :: int
  second :: int
  microsecond :: int

definition add_days :: "datetime \<Rightarrow> int \<Rightarrow> datetime" where
  "add_days d k = d\<lparr>ordinal := ordinal d + k\<rparr>"

definition weekday :: "datetime \<Rightarrow> int" where
  "weekday d = (ordinal d + 6) mod 7"

definition dt_less :: "datetime \<Rightarrow> datetime \<Rightarrow> bool" where
  "dt_less a b =
     (ordinal a < ordinal b \<or> (ordinal a = ordinal b \<and>
       (hour a < hour b \<or> (hour a = hour b \<and>
         (minute a < minute b \<or> (minute a = minute b \<and>
           (second a < second b \<or> (second a = second b \<and> microsecond a < microsecond b))))))))"

section \<open>The simulator\<close>

datatype perfil = Rapido | Medio | Lento

fun velocidad_lectura_palabras_min :: "perfil \<Rightarrow> real \<times> real" where
  "velocidad_lectura_palabras_min Rapido = (250, 350)"
| "velocidad_lectura_palabras_min Medio = (180, 250)"
| "velocidad_lectura_palabras_min Lento = (120, 180)"

definition palabras_por_pagina :: "string \<Rightarrow> int option" where
  "palabras_por_pagina =
     map_of [(''fiction'', 280), (''non-fiction'', 320), (''poetry'', 180), (''comics'', 100),
             (''default'', 260)]"

definition prob_abandono :: "int \<Rightarrow> real option" where
  "prob_abandono = map_of [(1, 85 / 100), (2, 70 / 100), (3, 40 / 100), (4, 15 / 100), (5, 5 / 100)]"

text \<open>\<^verbatim>\<open>str(n)\<close> of an integer.\<close>

fun str_nat :: "nat \<Rightarrow> string" where
  "str_nat n = (if n < 10 then [char_of (48 + n)] else str_nat (n div 10) @ [char_of (48 + n mod 10)])"

definition py_str_int :: "int \<Rightarrow> string" where
  "py_str_int i = (if i < 0 then CHR ''-'' # str_nat (nat (- i)) else str_nat (nat i))"

text \<open>\<open>h\<close> is the builtin \<^verbatim>\<open>hash\<close> of this process on strings.\<close>

definition determinar_perfil_lector :: "(string \<Rightarrow> int) \<Rightarrow> int \<Rightarrow> perfil" where
  "determinar_perfil_lector h user_id =
     (let hash_user = h (py_str_int user_id) mod 100
      in if hash_user < 20 then Rapido else if hash_user < 75 then Medio else Lento)"

text \<open>\<^verbatim>\<open>self.palabras_por_pagina.get(genero, self.palabras_por_pagina['default'])\<close>.\<close>

definition palabras_de_genero :: "pyval \<Rightarrow> int" where
  "palabras_de_genero genero =
     (case genero of
        PyStr s \<Rightarrow> (case palabras_por_pagina s of Some w \<Rightarrow> w | None \<Rightarrow> 260)
      | _ \<Rightarrow> 260)"

definition calcular_duracion_sesion :: "int \<Rightarrow> perfil \<Rightarrow> pyval \<Rightarrow> rng \<Rightarrow> error + real \<times> rng" where
  "calcular_duracion_sesion paginas_leidas perfil_lector genero g =
     (let palabras_pag = palabras_de_genero genero;
          total_palabras = paginas_leidas * palabras_pag;
          (vel_min, vel_max) = velocidad_lectura_palabras_min perfil_lector;
          (velocidad_promedio, g1) = uniform vel_min vel_max g
      in if velocidad_promedio = 0 then Inl ZeroDivisionError
         else let duracion_base = of_int total_palabras / velocidad_promedio
              in bind_r (normal 0 (duracion_base * (1 / 10)) g1)
                   (\<lambda>(ruido, g2). Inr (max 5 (duracion_base + ruido), g2)))"

text \<open>One round of the loop of \<^verbatim>\<open>generar_patron_temporal_sesiones\<close>.\<close>

definition paso_temporal :: "int \<Rightarrow> nat \<Rightarrow> datetime \<Rightarrow> rng \<Rightarrow> error + (datetime \<times> datetime) \<times> rng" where
  "paso_temporal num_sesiones i fecha_actual g =
     bind_r (if real i < of_int num_sesiones * (3 / 10)
             then choice [0, 1, 1, 2, 3] [30 / 100, 40 / 100, 20 / 100, 7 / 100, 3 / 100] g
             else choice [1, 2, 3, 4, 5, 7] [25 / 100, 25 / 100, 20 / 100, 15 / 100, 10 / 100, 5 / 100] g)
       (\<lambda>(dias_hasta_proxima, g1).
          let fecha = add_days fecha_actual dias_hasta_proxima
          in bind_r (if weekday fecha < 5
                     then choice [7, 8, 9, 12, 13, 19, 20, 21, 22, 23]
                            [8 / 100, 8 / 100, 6 / 100, 8 / 100, 7 / 100, 15 / 100, 15 / 100,
                             15 / 100, 12 / 100, 6 / 100] g1
                     else choice [8, 9, 10, 11, 12, 13, 14, 15, 16, 17, 18, 19, 20, 21, 22, 23]
                            [5 / 100, 8 / 100, 10 / 100, 8 / 100, 6 / 100, 5 / 100, 5 / 100, 5 / 100,
                             8 / 100, 10 / 100, 10 / 100, 8 / 100, 6 / 100, 4 / 100, 1 / 100, 1 / 100] g1)
               (\<lambda>(hora, g2).
                  let (minuto, g3) = randint 0 60 g2
                  in Inr ((fecha, fecha\<lparr>hour := hora, minute := minuto, second := 0\<rparr>), g3)))"

fun patron_loop :: "int \<Rightarrow> nat list \<Rightarrow> datetime \<Rightarrow> rng \<Rightarrow> error + datetime list \<times> rng" where
  "patron_loop num_sesiones [] fecha_actual g = Inr ([], g)"
| "patron_loop num_sesiones (i # is) fecha_actual g =
     (case paso_temporal num_sesiones i fecha_actual g of
        Inl e \<Rightarrow> Inl e
      | Inr ((fecha, timestamp), g1) \<Rightarrow>
          (case patron_loop num_sesiones is fecha g1 of
             Inl e \<Rightarrow> Inl e
           | Inr (timestamps, g2) \<Rightarrow> Inr (timestamp # timestamps, g2)))"

definition generar_patron_temporal_sesiones ::
  "int \<Rightarrow> datetime \<Rightarrow> rng \<Rightarrow> error + datetime list \<times> rng" where
  "generar_patron_temporal_sesiones num_sesiones fecha_inicio g =
     patron_loop num_sesiones [0 ..< nat num_sesiones] fecha_inicio g"

record sesion =
  user_id :: int
  book_id :: int
  session_start :: datetime
  duration_minutes :: real
  progress_start :: int
  progress_end :: int
  pages_read :: int
  completion_pct_start :: real
  completion_pct_end :: real

text \<open>
  The three path functions run the same loop over \<^verbatim>\<open>enumerate(timestamps)\<close>: they
  differ in how \<^verbatim>\<open>paginas_sesion\<close> is chosen, which is the parameter \<open>paginas\<close> (given
  the index and \<^verbatim>\<open>progreso_acumulado\<close>); the rest of the body, the same text in the
  three functions, is written once. \<^verbatim>\<open>session_end\<close> (the start plus the duration) is
  not kept in the record.
\<close>

fun sesiones_loop ::
  "(nat \<Rightarrow> int \<Rightarrow> rng \<Rightarrow> error + int \<times> rng) \<Rightarrow> int \<Rightarrow> int \<Rightarrow> int \<Rightarrow> perfil \<Rightarrow> pyval \<Rightarrow>
   nat \<Rightarrow> int \<Rightarrow> datetime list \<Rightarrow> rng \<Rightarrow> error + sesion list \<times> rng" where
  "sesiones_loop paginas uid bid num_pages perfil genero i progreso_acumulado [] g = Inr ([], g)"
| "sesiones_loop paginas uid bid num_pages perfil genero i progreso_acumulado (ts_start # tss) g =
     (case paginas i progreso_acumulado g of
        Inl e \<Rightarrow> Inl e
      | Inr (paginas_sesion, g1) \<Rightarrow>
          (case calcular_duracion_sesion paginas_sesion perfil genero g1 of
             Inl e \<Rightarrow> Inl e
           | Inr (duracion_minutos, g2) \<Rightarrow>
               if num_pages = 0 then Inl ZeroDivisionError
               else
                 (case sesiones_loop paginas uid bid num_pages perfil genero (Suc i)
                         (progreso_acumulado + paginas_sesion) tss g2 of
                    Inl e \<Rightarrow> Inl e
                  | Inr (sesiones, g3) \<Rightarrow>
                      Inr (\<lparr>user_id = uid, book_id = bid, session_start = ts_start,
                            duration_minutes = duracion_minutos,
                            progress_start = progreso_acumulado,
                            progress_end = progreso_acumulado + paginas_sesion,
                            pages_read = paginas_sesion,
                            completion_pct_start =
                              of_int progreso_acumulado / of_int num_pages * 100,
                            completion_pct_end =
                              of_int (progreso_acumulado + paginas_sesion) / of_int num_pages * 100\<rparr>
                           # sesiones, g3))))"

text \<open>
  \<^verbatim>\<open>max(1, int(np.random.normal(media, desv)))\<close> capped at the pages that remain, after
  the division \<^verbatim>\<open>paginas_restantes / (num_sesiones - i)\<close>.
\<close>

definition paginas_normal :: "int \<Rightarrow> int \<Rightarrow> nat \<Rightarrow> real \<Rightarrow> real \<Rightarrow> rng \<Rightarrow> error + int \<times> rng" where
  "paginas_normal paginas_restantes num_sesiones i factor desv g =
     (if num_sesiones - int i = 0 then Inl ZeroDivisionError
      else let paginas_promedio = of_int paginas_restantes / of_int (num_sesiones - int i)
           in bind_r (normal (paginas_promedio * factor) (paginas_promedio * desv) g)
                (\<lambda>(x, g1). Inr (min (max 1 (py_trunc x)) paginas_restantes, g1)))"

definition paginas_completado :: "int \<Rightarrow> int \<Rightarrow> nat \<Rightarrow> int \<Rightarrow> rng \<Rightarrow> error + int \<times> rng" where
  "paginas_completado paginas_totales_leer num_sesiones i progreso_acumulado g =
     (if int i = num_sesiones - 1 then Inr (paginas_totales_leer - progreso_acumulado, g)
      else let factor = (if real i < of_int num_sesiones * (3 / 10) then 13 / 10 else 1)
           in paginas_normal (paginas_totales_leer - progreso_acumulado) num_sesiones i factor (3 / 10) g)"

definition paginas_abandono_temprano :: "int \<Rightarrow> int \<Rightarrow> nat \<Rightarrow> int \<Rightarrow> rng \<Rightarrow> error + int \<times> rng" where
  "paginas_abandono_temprano progreso_total num_sesiones i progreso_acumulado g =
     (let paginas_restantes = progreso_total - progreso_acumulado
      in if int i = num_sesiones - 1 then Inr (paginas_restantes, g)
         else if num_sesiones = 0 then Inl ZeroDivisionError
         else let factor_decaimiento = 12 / 10 - real i / of_int num_sesiones
              in paginas_normal paginas_restantes num_sesiones i factor_decaimiento (4 / 10) g)"

definition paginas_abandono_medio :: "int \<Rightarrow> int \<Rightarrow> nat \<Rightarrow> int \<Rightarrow> rng \<Rightarrow> error + int \<times> rng" where
  "paginas_abandono_medio progreso_total num_sesiones i progreso_acumulado g =
     (let paginas_restantes = progreso_total - progreso_acumulado
      in if int i = num_sesiones - 1 then Inr (paginas_restantes, g)
         else let (u, g1) = random_sample g;
                  factor = (if u < 3 / 10 then 1 / 2 else 1)
              in paginas_normal paginas_restantes num_sesiones i factor (1 / 2) g1)"

text \<open>
  The path functions. \<open>h\<close> is the process's \<^verbatim>\<open>hash\<close>, \<open>now\<close> the value of
  \<^verbatim>\<open>datetime.now()\<close>. The \<^verbatim>\<open>rating\<close> argument of the source is not read by any
  of them and is left out.
\<close>

definition simular_sesiones_completado ::
  "(string \<Rightarrow> int) \<Rightarrow> datetime \<Rightarrow> int \<Rightarrow> int \<Rightarrow> int \<Rightarrow> pyval \<Rightarrow> rng \<Rightarrow> error + sesion list \<times> rng" where
  "simular_sesiones_completado h now bid uid num_pages genero g =
     (let perfil = determinar_perfil_lector h uid;
          (num_sesiones, g1) =
             (if num_pages < 150 then randint 3 8 g
              else if num_pages < 300 then randint 6 15 g
              else if num_pages < 500 then randint 10 25 g
              else randint 15 40 g);
          (dias_atras, g2) = randint 30 365 g1;
          fecha_inicio = add_days now (- dias_atras)
      in bind_r (generar_patron_temporal_sesiones num_sesiones fecha_inicio g2)
           (\<lambda>(timestamps, g3).
              sesiones_loop (paginas_completado num_pages num_sesiones) uid bid num_pages perfil
                genero 0 0 timestamps g3))"

definition simular_sesiones_abandono_temprano ::
  "(string \<Rightarrow> int) \<Rightarrow> datetime \<Rightarrow> int \<Rightarrow> int \<Rightarrow> int \<Rightarrow> pyval \<Rightarrow> rng \<Rightarrow> error + sesion list \<times> rng" where
  "simular_sesiones_abandono_temprano h now bid uid num_pages genero g =
     (let perfil = determinar_perfil_lector h uid;
          (num_sesiones, g1) = randint 1 5 g;
          (dias_atras, g2) = randint 30 180 g1;
          fecha_inicio = add_days now (- dias_atras)
      in bind_r (generar_patron_temporal_sesiones num_sesiones fecha_inicio g2)
           (\<lambda>(timestamps, g3).
              let (u, g4) = uniform (5 / 100) (30 / 100) g3;
                  progreso_total = py_trunc (of_int num_pages * u)
              in sesiones_loop (paginas_abandono_temprano progreso_total num_sesiones) uid bid
                   num_pages perfil genero 0 0 timestamps g4))"

definition simular_sesiones_abandono_medio ::
  "(string \<Rightarrow> int) \<Rightarrow> datetime \<Rightarrow> int \<Rightarrow> int \<Rightarrow> int \<Rightarrow> pyval \<Rightarrow> rng \<Rightarrow> error + sesion list \<times> rng" where
  "simular_sesiones_abandono_medio h now bid uid num_pages genero g =
     (let perfil = determinar_perfil_lector h uid;
          (num_sesiones, g1) = randint 5 15 g;
          (dias_atras, g2) = randint 60 300 g1;
          fecha_inicio = add_days now (- dias_atras)
      in bind_r (generar_patron_temporal_sesiones num_sesiones fecha_inicio g2)
           (\<lambda>(timestamps, g3).
              let (u, g4) = uniform (30 / 100) (70 / 100) g3;
                  progreso_total = py_trunc (of_int num_pages * u)
              in sesiones_loop (paginas_abandono_medio progreso_total num_sesiones) uid bid
                   num_pages perfil genero 0 0 timestamps g4))"

subsection \<open>One interaction\<close>

text \<open>
  A row of the merged table: \<open>None\<close> is a column the row does not have, which
  \<^verbatim>\<open>row.get(name, default)\<close> replaces by the default and \<^verbatim>\<open>row[name]\<close> answers
  with a KeyError.
\<close>

record row =
  row_book_id :: "int option"
  row_user_id :: "int option"
  row_is_read :: "pyval option"
  row_rating :: "pyval option"
  row_num_pages :: "pyval option"
  row_genres :: "pyval option"
  row_abandono_score :: "pyval option"
  row_engagement_score :: "pyval option"
  row_complejidad_score :: "pyval option"
  row_ritmo_score :: "pyval option"

definition row_get :: "'a option \<Rightarrow> 'a \<Rightarrow> 'a" where
  "row_get c d = (case c of None \<Rightarrow> d | Some v \<Rightarrow> v)"

text \<open>
  The guarded conversion of \<^verbatim>\<open>num_pages\<close>: ValueError and TypeError are caught and
  give 300, any other exception goes on; then \<^verbatim>\<open>max(1, num_pages)\<close>.
\<close>

definition convertir_num_pages :: "(string \<Rightarrow> pyfloat option) \<Rightarrow> pyval \<Rightarrow> error + int" where
  "convertir_num_pages fl v =
     (case (if pd_isna v then Inr 300 else bind_r (py_float fl v) py_int) of
        Inl ValueError \<Rightarrow> Inr (max 1 300)
      | Inl TypeError \<Rightarrow> Inr (max 1 300)
      | Inl e \<Rightarrow> Inl e
      | Inr n \<Rightarrow> Inr (max 1 n))"

text \<open>\<^verbatim>\<open>int(rating)\<close> once \<open>rating\<close> has passed the two comparisons.\<close>

definition int_de_rating :: "pyval \<Rightarrow> error + int" where
  "int_de_rating v = bind_r (py_num v) py_int"

text \<open>
  The adjustment of the base probability by the four review features and its clamp to
  \<open>[0,1]\<close>, on scores that are numbers.
\<close>

definition ajustar_prob :: "real \<Rightarrow> pyfloat \<Rightarrow> pyfloat \<Rightarrow> pyfloat \<Rightarrow> pyfloat \<Rightarrow> real" where
  "ajustar_prob prob_base abandono engagement complejidad ritmo =
     (let p1 = (case pos_capped abandono of Some m \<Rightarrow> prob_base + m * (25 / 100) | None \<Rightarrow> prob_base);
          p2 = (case pos_capped engagement of Some m \<Rightarrow> p1 - m * (15 / 100) | None \<Rightarrow> p1);
          p3 = (case pos_capped complejidad of Some m \<Rightarrow> p2 + m * (10 / 100) | None \<Rightarrow> p2);
          p4 = (case neg_abs_capped ritmo of Some m \<Rightarrow> p3 + m * (8 / 100) | None \<Rightarrow> p3)
      in max 0 (min 1 p4))"

definition prob_aband_de_fila :: "pyval \<Rightarrow> pyval \<Rightarrow> pyval \<Rightarrow> pyval \<Rightarrow> pyval \<Rightarrow> error + real \<times> pyfloat" where
  "prob_aband_de_fila rating abandono_score engagement_score complejidad_score ritmo_score =
     bind_r (int_de_rating rating) (\<lambda>k.
     let prob_base = (case prob_abandono k of Some p \<Rightarrow> p | None \<Rightarrow> 1 / 2)
     in bind_r (py_num abandono_score) (\<lambda>a.
        bind_r (py_num engagement_score) (\<lambda>e.
        bind_r (py_num complejidad_score) (\<lambda>c.
        bind_r (py_num ritmo_score) (\<lambda>r.
          Inr (ajustar_prob prob_base a e c r, e))))))"

definition simular_para_interaccion ::
  "(string \<Rightarrow> pyfloat option) \<Rightarrow> (string \<Rightarrow> int) \<Rightarrow> datetime \<Rightarrow> row \<Rightarrow> rng \<Rightarrow>
   error + sesion list \<times> rng" where
  "simular_para_interaccion fl h now r g =
     (case row_book_id r of None \<Rightarrow> Inl KeyError | Some bid \<Rightarrow>
     (case row_user_id r of None \<Rightarrow> Inl KeyError | Some uid \<Rightarrow>
      let is_read = row_get (row_is_read r) (PyInt 0);
          rating = row_get (row_rating r) (PyInt 3)
      in bind_r (convertir_num_pages fl (row_get (row_num_pages r) (PyInt 300))) (\<lambda>num_pages.
         let genero = row_get (row_genres r) (PyStr ''default'');
             abandono_score = row_get (row_abandono_score r) (PyInt 0);
             engagement_score = row_get (row_engagement_score r) (PyInt 0);
             complejidad_score = row_get (row_complejidad_score r) (PyInt 0);
             ritmo_score = row_get (row_ritmo_score r) (PyInt 0)
         in if py_eq is_read 0 \<and> pd_isna rating then Inr ([], g)
            else
              bind_r (if py_eq is_read 1 then map_sum id (\<lambda>f. f_ge f 4) (py_num rating)
                      else Inr False) (\<lambda>alto.
              if alto then simular_sesiones_completado h now bid uid num_pages genero g
              else
                bind_r (map_sum id (\<lambda>f. f_le f 2) (py_num rating)) (\<lambda>bajo.
                if bajo then simular_sesiones_abandono_temprano h now bid uid num_pages genero g
                else
                  bind_r (prob_aband_de_fila rating abandono_score engagement_score
                            complejidad_score ritmo_score) (\<lambda>(prob_aband, engagement).
                  let (u, g1) = random_sample g
                  in if u < prob_aband
                     then if f_lt engagement (- (2 / 10))
                          then simular_sesiones_abandono_temprano h now bid uid num_pages genero g1
                          else simular_sesiones_abandono_medio h now bid uid num_pages genero g1
                     else simular_sesiones_completado h now bid uid num_pages genero g1))))))"

section \<open>Properties of a session sequence\<close>

text \<open>
  The progress values chain from \<open>p\<close>: each session starts where the one before it
  ended, and reads the pages between its two progress values.
\<close>

fun progreso_encadenado :: "int \<Rightarrow> sesion list \<Rightarrow> bool" where
  "progreso_encadenado p [] = True"
| "progreso_encadenado p (s # ss) =
     (progress_start s = p \<and> pages_read s = progress_end s - progress_start s \<and>
      progreso_encadenado (progress_end s) ss)"

text \<open>
  The dates of the timestamps of the rounds \<open>is\<close>, after the date \<open>d\<close>: no date is
  before the one preceding it, and a round past the first 30 percent is on a later day.
\<close>

fun fechas_ok :: "int \<Rightarrow> nat list \<Rightarrow> int \<Rightarrow> datetime list \<Rightarrow> bool" where
  "fechas_ok n [] d [] = True"
| "fechas_ok n (i # is) d (t # ts) =
     (d \<le> ordinal t \<and> (real i < of_int n * (3 / 10) \<or> d < ordinal t) \<and>
      fechas_ok n is (ordinal t) ts)"
| "fechas_ok n _ d _ = False"



text \<open>
  What every non-empty generated sequence satisfies, whichever path made it: \<open>n\<close>
  sessions, dated after \<open>d\<close>, whose progress chains from 0 up to the path's target \<open>obj\<close>.
\<close>

definition secuencia_de_camino :: "int \<Rightarrow> int \<Rightarrow> int \<Rightarrow> sesion list \<Rightarrow> bool" where
  "secuencia_de_camino n d obj ss =
     (1 \<le> n \<and> int (length ss) = n \<and> ss \<noteq> [] \<and>
      fechas_ok n [0 ..< nat n] d (map session_start ss) \<and>
      progreso_encadenado 0 ss \<and>
      (\<forall>s \<in> set ss. 5 \<le> duration_minutes s \<and> 0 \<le> pages_read s \<and> progress_end s \<le> obj \<and>
                     (progress_start s < obj \<longrightarrow> 1 \<le> pages_read s)) \<and>
      progress_end (last ss) = obj)"


section \<open>Concrete interactions\<close>

text \<open>
  A clock reading, a one-page book rated 5 and read, the sessions the simulator makes
  for it when every raw draw is 0, and a 100-page book with a stream of draws that puts
  the second session on the day of the first, at an earlier hour.
\<close>

definition reloj_ej :: datetime where
  "reloj_ej = \<lparr>ordinal = 739000, hour = 10, minute = 30, second = 15, microsecond = 123\<rparr>"

definition fila_ej :: row where
  "fila_ej = \<lparr>row_book_id = Some 1, row_user_id = Some 7, row_is_read = Some (PyInt 1),
      row_rating = Some (PyInt 5), row_num_pages = Some (PyInt 1),
      row_genres = Some (PyStr ''fiction''), row_abandono_score = None,
      row_engagement_score = None, row_complejidad_score = None, row_ritmo_score = None\<rparr>"

definition sesiones_ej :: "sesion list" where
  "sesiones_ej =
     [\<lparr>user_id = 7, book_id = 1,
       session_start = \<lparr>ordinal = 738970, hour = 7, minute = 0, second = 0, microsecond = 123\<rparr>,
       duration_minutes = 5, progress_start = 0, progress_end = 1, pages_read = 1,
       completion_pct_start = 0, completion_pct_end = 100\<rparr>,
      \<lparr>user_id = 7, book_id = 1,
       session_start = \<lparr>ordinal = 738971, hour = 7, minute = 0, second = 0, microsecond = 123\<rparr>,
       duration_minutes = 5, progress_start = 1, progress_end = 1, pages_read = 0,
       completion_pct_start = 100, completion_pct_end = 100\<rparr>,
      \<lparr>user_id = 7, book_id = 1,
       session_start = \<lparr>ordinal = 738972, hour = 7, minute = 0, second = 0, microsecond = 123\<rparr>,
       duration_minutes = 5, progress_start = 1, progress_end = 1, pages_read = 0,
       completion_pct_start = 100, completion_pct_end = 100\<rparr>]"

definition fila_100 :: row where
  "fila_100 = fila_ej\<lparr>row_num_pages := Some (PyInt 100)\<rparr>"

definition cinta_desorden :: rng where
  "cinta_desorden = (\<lambda>k. if k = 0 then 1 / 5 else if k = 3 then 99 / 100 else 0)"

definition inicios_desorden :: "datetime list" where
  "inicios_desorden =
     [\<lparr>ordinal = 738970, hour = 23, minute = 0, second = 0, microsecond = 123\<rparr>,
      \<lparr>ordinal = 738970, hour = 7, minute = 0, second = 0, microsecond = 123\<rparr>,
      \<lparr>ordinal = 738971, hour = 7, minute = 0, second = 0, microsecond = 123\<rparr>,
      \<lparr>ordinal = 738972, hour = 7, minute = 0, second = 0, microsecond = 123\<rparr>]"

section \<open>Samplers and loops: auxiliary facts\<close>

declare str_nat.simps [simp del]

lemma bind_r_Inl [simp]: "bind_r (Inl e) f = Inl e"
  by (simp add: bind_r_def)

lemma bind_r_Inr [simp]: "bind_r (Inr x) f = f x"
  by (simp add: bind_r_def)

lemma bind_r_eq_Inr: "bind_r m f = Inr y \<longleftrightarrow> (\<exists>x. m = Inr x \<and> f x = Inr y)"
  by (cases m) simp_all

lemma random_sample_range:
  "random_sample g = (u, g1) \<Longrightarrow> 0 \<le> u \<and> u < 1 \<and> g1 = g \<circ> Suc"
  by (auto simp: random_sample_def frac_lt_1)

lemma randint_range:
  assumes "lo < hi" and "randint lo hi g = (k, g1)"
  shows "lo \<le> k \<and> k < hi \<and> g1 = g \<circ> Suc"
proof -
  obtain u where u: "random_sample g = (u, g \<circ> Suc)" "0 \<le> u" "u < 1"
    by (simp add: random_sample_def frac_lt_1)
  from assms(2) u(1) have k: "k = lo + \<lfloor>u * of_int (hi - lo)\<rfloor>" and g1: "g1 = g \<circ> Suc"
    by (simp_all add: randint_def)
  have pos: "0 < (of_int (hi - lo) :: real)" using assms(1) by simp
  have "0 \<le> u * of_int (hi - lo)" using u(2) pos by simp
  then have lo: "0 \<le> \<lfloor>u * of_int (hi - lo)\<rfloor>" by simp
  have "u * of_int (hi - lo) < of_int (hi - lo)" using u(3) pos by simp
  then have "\<lfloor>u * of_int (hi - lo)\<rfloor> < hi - lo" by (simp add: floor_less_iff)
  with lo k g1 show ?thesis by simp
qed

lemma uniform_range:
  assumes "lo < hi" and "uniform lo hi g = (x, g1)"
  shows "lo \<le> x \<and> x < hi \<and> g1 = g \<circ> Suc"
proof -
  obtain u where u: "random_sample g = (u, g \<circ> Suc)" "0 \<le> u" "u < 1"
    by (simp add: random_sample_def frac_lt_1)
  from assms(2) u(1) have x: "x = lo + (hi - lo) * u" and g1: "g1 = g \<circ> Suc"
    by (simp_all add: uniform_def)
  have pos: "0 < hi - lo" using assms(1) by simp
  have a: "0 \<le> (hi - lo) * u" using u(2) pos by simp
  have "(hi - lo) * u < (hi - lo) * 1" using u(3) pos by (simp only: mult_less_cancel_left_pos)
  with a x g1 show ?thesis by simp
qed

lemma choice_walk_total:
  "length xs = length ps \<Longrightarrow> 0 \<le> u \<Longrightarrow> u < sum_list ps \<Longrightarrow>
   \<exists>x \<in> set xs. choice_walk xs ps u = Some x"
proof (induction xs ps arbitrary: u rule: list_induct2)
  case Nil
  then show ?case by simp
next
  case (Cons x xs p ps)
  show ?case
  proof (cases "u < p")
    case True
    then show ?thesis by simp
  next
    case False
    with Cons.prems have "0 \<le> u - p" "u - p < sum_list ps" by simp_all
    from Cons.IH [OF this] False show ?thesis by auto
  qed
qed

lemma choice_total:
  assumes "length xs = length ps" and "sum_list ps = 1"
  shows "\<exists>x \<in> set xs. choice xs ps g = Inr (x, g \<circ> Suc)"
proof -
  have "frac (g 0) < sum_list ps" using assms(2) by (simp add: frac_lt_1)
  from choice_walk_total [OF assms(1) _ this] show ?thesis
    by (auto simp: choice_def random_sample_def)
qed

lemma palabras_de_genero_pos: "0 < palabras_de_genero genero"
  by (auto simp: palabras_de_genero_def palabras_por_pagina_def split: pyval.splits option.splits if_splits)

lemma velocidad_pos: "velocidad_lectura_palabras_min p = (a, b) \<Longrightarrow> 0 < a \<and> a < b"
  by (cases p) auto

lemma calcular_duracion_sesion_cases:
  "(paginas < 0 \<and> calcular_duracion_sesion paginas p genero g = Inl ValueError) \<or>
   (0 \<le> paginas \<and> (\<exists>d. 5 \<le> d \<and> calcular_duracion_sesion paginas p genero g = Inr (d, g \<circ> Suc \<circ> Suc)))"
proof -
  obtain a b where ab: "velocidad_lectura_palabras_min p = (a, b)" by force
  obtain v g1 where v: "uniform a b g = (v, g1)" by force
  from velocidad_pos [OF ab] uniform_range [OF _ v] have vpos: "0 < v" and g1: "g1 = g \<circ> Suc"
    by auto
  let ?base = "real_of_int (paginas * palabras_de_genero genero) / v"
  have sgn: "?base < 0 \<longleftrightarrow> paginas < 0"
    using vpos palabras_de_genero_pos [of genero]
    by (simp add: divide_less_0_iff mult_less_0_iff not_less)
  show ?thesis
    using ab v vpos g1 sgn
    by (cases "paginas < 0") (simp_all add: calcular_duracion_sesion_def normal_def Let_def comp_assoc)
qed



lemma dias_hasta_proxima_total:
  "\<exists>d. (if real i < of_int n * (3 / 10)
         then choice [0, 1, 1, 2, 3] [30 / 100, 40 / 100, 20 / 100, 7 / 100, 3 / 100] g
         else choice [1, 2, 3, 4, 5, 7] [25 / 100, 25 / 100, 20 / 100, 15 / 100, 10 / 100, 5 / 100] g)
        = Inr (d :: int, g \<circ> Suc) \<and> 0 \<le> d \<and> (\<not> real i < of_int n * (3 / 10) \<longrightarrow> 1 \<le> d)"
proof (cases "real i < of_int n * (3 / 10)")
  case True
  have "\<exists>x \<in> set [0, 1, 1, 2, 3 :: int].
          choice [0, 1, 1, 2, 3] [30 / 100, 40 / 100, 20 / 100, 7 / 100, 3 / 100] g = Inr (x, g \<circ> Suc)"
    by (rule choice_total) simp_all
  with True show ?thesis by auto
next
  case False
  have "\<exists>x \<in> set [1, 2, 3, 4, 5, 7 :: int].
          choice [1, 2, 3, 4, 5, 7] [25 / 100, 25 / 100, 20 / 100, 15 / 100, 10 / 100, 5 / 100] g
            = Inr (x, g \<circ> Suc)"
    by (rule choice_total) simp_all
  with False show ?thesis by auto
qed

lemma hora_total:
  "\<exists>hora. (if w < (5 :: int)
            then choice [7, 8, 9, 12, 13, 19, 20, 21, 22, 23]
                   [8 / 100, 8 / 100, 6 / 100, 8 / 100, 7 / 100, 15 / 100, 15 / 100,
                    15 / 100, 12 / 100, 6 / 100] g
            else choice [8, 9, 10, 11, 12, 13, 14, 15, 16, 17, 18, 19, 20, 21, 22, 23]
                   [5 / 100, 8 / 100, 10 / 100, 8 / 100, 6 / 100, 5 / 100, 5 / 100, 5 / 100,
                    8 / 100, 10 / 100, 10 / 100, 8 / 100, 6 / 100, 4 / 100, 1 / 100, 1 / 100] g)
          = Inr (hora :: int, g \<circ> Suc) \<and> 7 \<le> hora \<and> hora \<le> 23"
proof (cases "w < 5")
  case True
  have "\<exists>x \<in> set [7, 8, 9, 12, 13, 19, 20, 21, 22, 23 :: int].
          choice [7, 8, 9, 12, 13, 19, 20, 21, 22, 23]
            [8 / 100, 8 / 100, 6 / 100, 8 / 100, 7 / 100, 15 / 100, 15 / 100,
             15 / 100, 12 / 100, 6 / 100] g = Inr (x, g \<circ> Suc)"
    by (rule choice_total) simp_all
  with True show ?thesis by auto
next
  case False
  have "\<exists>x \<in> set [8, 9, 10, 11, 12, 13, 14, 15, 16, 17, 18, 19, 20, 21, 22, 23 :: int].
          choice [8, 9, 10, 11, 12, 13, 14, 15, 16, 17, 18, 19, 20, 21, 22, 23]
            [5 / 100, 8 / 100, 10 / 100, 8 / 100, 6 / 100, 5 / 100, 5 / 100, 5 / 100,
             8 / 100, 10 / 100, 10 / 100, 8 / 100, 6 / 100, 4 / 100, 1 / 100, 1 / 100] g
            = Inr (x, g \<circ> Suc)"
    by (rule choice_total) simp_all
  with False show ?thesis by auto
qed

lemma paso_temporal_total:
  "\<exists>d hora minuto.
     paso_temporal n i f g =
       Inr ((add_days f d, (add_days f d)\<lparr>hour := hora, minute := minuto, second := 0\<rparr>),
            g \<circ> Suc \<circ> Suc \<circ> Suc)
     \<and> 0 \<le> d \<and> (\<not> real i < of_int n * (3 / 10) \<longrightarrow> 1 \<le> d)"
proof -
  from dias_hasta_proxima_total [of i n g] obtain d :: int where
    d: "(if real i < of_int n * (3 / 10)
         then choice [0, 1, 1, 2, 3] [30 / 100, 40 / 100, 20 / 100, 7 / 100, 3 / 100] g
         else choice [1, 2, 3, 4, 5, 7] [25 / 100, 25 / 100, 20 / 100, 15 / 100, 10 / 100, 5 / 100] g)
        = Inr (d, g \<circ> Suc)"
    and d0: "0 \<le> d" and d1: "\<not> real i < of_int n * (3 / 10) \<longrightarrow> 1 \<le> d"
    by blast
  from hora_total [of "weekday (add_days f d)" "g \<circ> Suc"] obtain hora :: int where
    hr: "(if weekday (add_days f d) < 5
            then choice [7, 8, 9, 12, 13, 19, 20, 21, 22, 23]
                   [8 / 100, 8 / 100, 6 / 100, 8 / 100, 7 / 100, 15 / 100, 15 / 100,
                    15 / 100, 12 / 100, 6 / 100] (g \<circ> Suc)
            else choice [8, 9, 10, 11, 12, 13, 14, 15, 16, 17, 18, 19, 20, 21, 22, 23]
                   [5 / 100, 8 / 100, 10 / 100, 8 / 100, 6 / 100, 5 / 100, 5 / 100, 5 / 100,
                    8 / 100, 10 / 100, 10 / 100, 8 / 100, 6 / 100, 4 / 100, 1 / 100, 1 / 100] (g \<circ> Suc))
          = Inr (hora, g \<circ> Suc \<circ> Suc)"
    by blast
  obtain m g3 where m: "randint 0 60 (g \<circ> Suc \<circ> Suc) = (m, g3)" by force
  from randint_range [OF _ m] have g3: "g3 = g \<circ> Suc \<circ> Suc \<circ> Suc" by simp
  have "paso_temporal n i f g =
       Inr ((add_days f d, (add_days f d)\<lparr>hour := hora, minute := m, second := 0\<rparr>),
            g \<circ> Suc \<circ> Suc \<circ> Suc)"
    unfolding paso_temporal_def by (simp only: d hr bind_r_Inr case_prod_conv Let_def m g3)
  with d0 d1 show ?thesis by blast
qed


lemma patron_loop_total:
  "\<exists>tss. patron_loop n is f g = Inr (tss, \<lambda>k. g (k + 3 * length is)) \<and>
         length tss = length is \<and> fechas_ok n is (ordinal f) tss"
proof (induction "is" arbitrary: f g)
  case Nil
  then show ?case by simp
next
  case (Cons i "is")
  from paso_temporal_total [of n i f g] obtain d hora minuto where
    paso: "paso_temporal n i f g =
       Inr ((add_days f d, (add_days f d)\<lparr>hour := hora, minute := minuto, second := 0\<rparr>),
            g \<circ> Suc \<circ> Suc \<circ> Suc)"
    and d0: "0 \<le> d" and d1: "\<not> real i < of_int n * (3 / 10) \<longrightarrow> 1 \<le> d"
    by blast
  from Cons.IH [of "add_days f d" "g \<circ> Suc \<circ> Suc \<circ> Suc"] obtain tss where
    rest: "patron_loop n is (add_days f d) (g \<circ> Suc \<circ> Suc \<circ> Suc) =
             Inr (tss, \<lambda>k. (g \<circ> Suc \<circ> Suc \<circ> Suc) (k + 3 * length is))"
    and len: "length tss = length is"
    and ok: "fechas_ok n is (ordinal (add_days f d)) tss"
    by blast
  have g: "(\<lambda>k. (g \<circ> Suc \<circ> Suc \<circ> Suc) (k + 3 * length is)) = (\<lambda>k. g (k + 3 * length (i # is)))"
    unfolding comp_apply by (intro ext arg_cong [of _ _ g]) simp
  have "patron_loop n (i # is) f g =
          Inr ((add_days f d)\<lparr>hour := hora, minute := minuto, second := 0\<rparr> # tss,
               \<lambda>k. g (k + 3 * length (i # is)))"
    using rest unfolding g by (simp only: patron_loop.simps paso sum.case prod.case)
  moreover have "fechas_ok n (i # is) (ordinal f)
     ((add_days f d)\<lparr>hour := hora, minute := minuto, second := 0\<rparr> # tss)"
    using d0 d1 ok by (auto simp: add_days_def)
  ultimately show ?case using len by auto
qed

lemma fechas_ok_nth:
  "fechas_ok n is d ts \<Longrightarrow> Suc k < length ts \<Longrightarrow>
   ordinal (ts ! k) \<le> ordinal (ts ! Suc k) \<and>
   (real (is ! Suc k) < of_int n * (3 / 10) \<or> ordinal (ts ! k) < ordinal (ts ! Suc k))"
proof (induction n "is" d ts arbitrary: k rule: fechas_ok.induct)
  case (2 n i "is" d t ts)
  show ?case
  proof (cases k)
    case 0
    with "2.prems" obtain t' ts' where ts: "ts = t' # ts'" by (cases ts) auto
    with "2.prems" obtain i' is' where "is": "is = i' # is'" by (cases "is") auto
    from "2.prems" ts "is" 0 show ?thesis by auto
  next
    case (Suc j)
    with "2.prems" "2.IH" [of j] show ?thesis by simp
  qed
qed simp_all

lemma fechas_ok_length: "fechas_ok n is d ts \<Longrightarrow> length ts = length is"
  by (induction n "is" d ts rule: fechas_ok.induct) simp_all

lemma progreso_encadenado_nth:
  "progreso_encadenado p ss \<Longrightarrow> Suc k < length ss \<Longrightarrow>
   progress_start (ss ! Suc k) = progress_end (ss ! k)"
proof (induction ss arbitrary: p k)
  case Nil
  then show ?case by simp
next
  case (Cons s ss)
  show ?case
  proof (cases k)
    case 0
    with Cons.prems obtain s' ss' where "ss = s' # ss'" by (cases ss) auto
    with Cons.prems 0 show ?thesis by simp
  next
    case (Suc j)
    with Cons.prems Cons.IH [of "progress_end s" j] show ?thesis by simp
  qed
qed

lemma progreso_encadenado_first:
  "progreso_encadenado p ss \<Longrightarrow> ss \<noteq> [] \<Longrightarrow> progress_start (ss ! 0) = p"
  by (cases ss) simp_all

lemma progreso_encadenado_pages:
  "progreso_encadenado p ss \<Longrightarrow> s \<in> set ss \<Longrightarrow> pages_read s = progress_end s - progress_start s"
  by (induction ss arbitrary: p) auto


lemma calcular_duracion_sesion_Inr:
  "calcular_duracion_sesion paginas p genero g = Inr (d, g') \<Longrightarrow>
   0 \<le> paginas \<and> 5 \<le> d \<and> g' = g \<circ> Suc \<circ> Suc"
  using calcular_duracion_sesion_cases [of paginas p genero g] by auto

lemma sesiones_loop_forma:
  "sesiones_loop paginas u b np pf gen i acc tss g = Inr (ss, g') \<Longrightarrow>
   map session_start ss = tss \<and> progreso_encadenado acc ss \<and>
   (\<forall>s \<in> set ss. 5 \<le> duration_minutes s)"
proof (induction tss arbitrary: i acc g ss)
  case Nil
  then show ?case by simp
next
  case (Cons ts tss)
  from Cons.prems obtain ps g1 d g2 rest where
    pag: "paginas i acc g = Inr (ps, g1)"
    and dur: "calcular_duracion_sesion ps pf gen g1 = Inr (d, g2)"
    and rec: "sesiones_loop paginas u b np pf gen (Suc i) (acc + ps) tss g2 = Inr (rest, g')"
    and ss: "ss = \<lparr>user_id = u, book_id = b, session_start = ts, duration_minutes = d,
                   progress_start = acc, progress_end = acc + ps, pages_read = ps,
                   completion_pct_start = of_int acc / of_int np * 100,
                   completion_pct_end = of_int (acc + ps) / of_int np * 100\<rparr> # rest"
    by (auto split: sum.splits prod.splits if_splits)
  from calcular_duracion_sesion_Inr [OF dur] have "5 \<le> d" by simp
  with Cons.IH [OF rec] ss show ?case by simp
qed

lemma paginas_normal_ok:
  assumes "paginas_normal r n i factor desv g = Inr (p, g')" and "0 \<le> r"
  shows "0 \<le> p \<and> p \<le> r \<and> (1 \<le> r \<longrightarrow> 1 \<le> p)"
  using assms
  by (auto simp: paginas_normal_def normal_def Let_def bind_r_eq_Inr split: if_splits)

lemma paginas_normal_total:
  assumes "0 \<le> r" and "int i < n" and "0 \<le> desv"
  shows "\<exists>p g'. paginas_normal r n i factor desv g = Inr (p, g')"
proof -
  have "0 < real_of_int (n - int i)" using assms(2) by simp
  then have "0 \<le> real_of_int r / real_of_int (n - int i)" using assms(1) by simp
  then have "0 \<le> real_of_int r / real_of_int (n - int i) * desv"
    using assms(3) by (rule mult_nonneg_nonneg)
  then have "\<not> real_of_int r / real_of_int (n - int i) * desv < 0" by simp
  moreover have "n - int i \<noteq> 0" using assms(2) by simp
  ultimately show ?thesis
    unfolding paginas_normal_def normal_def Let_def by (simp only: if_False bind_r_Inr case_prod_conv) blast
qed

lemma paginas_completado_ok:
  assumes "paginas_completado obj n i acc g = Inr (p, g')" and "acc \<le> obj"
  shows "0 \<le> p \<and> p \<le> obj - acc \<and> (acc < obj \<longrightarrow> 1 \<le> p) \<and> (int i = n - 1 \<longrightarrow> p = obj - acc)"
proof (cases "int i = n - 1")
  case True
  with assms show ?thesis by (auto simp: paginas_completado_def)
next
  case False
  with assms(1) obtain factor where
    "paginas_normal (obj - acc) n i factor (3 / 10) g = Inr (p, g')"
    by (auto simp: paginas_completado_def Let_def)
  from paginas_normal_ok [OF this] assms(2) False show ?thesis by auto
qed

lemma paginas_completado_total:
  assumes "acc \<le> obj" and "int i < n"
  shows "\<exists>p g'. paginas_completado obj n i acc g = Inr (p, g')"
proof (cases "int i = n - 1")
  case True
  then show ?thesis by (simp add: paginas_completado_def)
next
  case False
  from assms have "0 \<le> obj - acc" by simp
  from paginas_normal_total [OF this assms(2)] False show ?thesis
    by (simp add: paginas_completado_def Let_def)
qed

lemma paginas_abandono_temprano_ok:
  assumes "paginas_abandono_temprano obj n i acc g = Inr (p, g')" and "acc \<le> obj"
  shows "0 \<le> p \<and> p \<le> obj - acc \<and> (acc < obj \<longrightarrow> 1 \<le> p) \<and> (int i = n - 1 \<longrightarrow> p = obj - acc)"
proof (cases "int i = n - 1")
  case True
  with assms show ?thesis by (auto simp: paginas_abandono_temprano_def)
next
  case False
  with assms(1) obtain factor where
    "paginas_normal (obj - acc) n i factor (4 / 10) g = Inr (p, g')"
    by (auto simp: paginas_abandono_temprano_def Let_def split: if_splits)
  from paginas_normal_ok [OF this] assms(2) False show ?thesis by auto
qed

lemma paginas_abandono_temprano_total:
  assumes "acc \<le> obj" and "int i < n"
  shows "\<exists>p g'. paginas_abandono_temprano obj n i acc g = Inr (p, g')"
proof (cases "int i = n - 1")
  case True
  then show ?thesis by (simp add: paginas_abandono_temprano_def)
next
  case False
  from assms have "0 \<le> obj - acc" by simp
  moreover have "n \<noteq> 0" using assms(2) by auto
  ultimately show ?thesis using paginas_normal_total [OF _ assms(2)] False
    by (simp add: paginas_abandono_temprano_def Let_def)
qed

lemma paginas_abandono_medio_ok:
  assumes "paginas_abandono_medio obj n i acc g = Inr (p, g')" and "acc \<le> obj"
  shows "0 \<le> p \<and> p \<le> obj - acc \<and> (acc < obj \<longrightarrow> 1 \<le> p) \<and> (int i = n - 1 \<longrightarrow> p = obj - acc)"
proof (cases "int i = n - 1")
  case True
  with assms show ?thesis by (auto simp: paginas_abandono_medio_def)
next
  case False
  with assms(1) obtain factor g1 where
    "paginas_normal (obj - acc) n i factor (1 / 2) g1 = Inr (p, g')"
    by (auto simp: paginas_abandono_medio_def Let_def split: prod.splits)
  from paginas_normal_ok [OF this] assms(2) False show ?thesis by auto
qed

lemma paginas_abandono_medio_total:
  assumes "acc \<le> obj" and "int i < n"
  shows "\<exists>p g'. paginas_abandono_medio obj n i acc g = Inr (p, g')"
proof (cases "int i = n - 1")
  case True
  then show ?thesis by (simp add: paginas_abandono_medio_def)
next
  case False
  from assms have "0 \<le> obj - acc" by simp
  from paginas_normal_total [OF this assms(2)] False show ?thesis
    by (simp add: paginas_abandono_medio_def Let_def split: prod.splits)
qed


lemma sesiones_loop_paginas:
  assumes al: "\<forall>i acc g p g'. acc \<le> obj \<longrightarrow> paginas i acc g = Inr (p, g') \<longrightarrow>
                 0 \<le> p \<and> p \<le> obj - acc \<and> (acc < obj \<longrightarrow> 1 \<le> p) \<and> (int i = n - 1 \<longrightarrow> p = obj - acc)"
  shows "sesiones_loop paginas u b np pf gen i acc tss g = Inr (ss, g') \<Longrightarrow> acc \<le> obj \<Longrightarrow>
         int i + int (length tss) = n \<Longrightarrow>
         (\<forall>s \<in> set ss. 0 \<le> pages_read s \<and> progress_end s \<le> obj \<and>
                        (progress_start s < obj \<longrightarrow> 1 \<le> pages_read s)) \<and>
         (ss \<noteq> [] \<longrightarrow> progress_end (last ss) = obj) \<and> length ss = length tss"
proof (induction tss arbitrary: i acc g ss)
  case Nil
  then show ?case by simp
next
  case (Cons ts tss)
  from Cons.prems(1) obtain ps g1 d g2 rest where
    pag: "paginas i acc g = Inr (ps, g1)"
    and rec: "sesiones_loop paginas u b np pf gen (Suc i) (acc + ps) tss g2 = Inr (rest, g')"
    and ss: "ss = \<lparr>user_id = u, book_id = b, session_start = ts, duration_minutes = d,
                   progress_start = acc, progress_end = acc + ps, pages_read = ps,
                   completion_pct_start = of_int acc / of_int np * 100,
                   completion_pct_end = of_int (acc + ps) / of_int np * 100\<rparr> # rest"
    by (auto split: sum.splits prod.splits if_splits)
  from al [rule_format, OF Cons.prems(2) pag] have
    p: "0 \<le> ps" "ps \<le> obj - acc" "acc < obj \<longrightarrow> 1 \<le> ps" "int i = n - 1 \<longrightarrow> ps = obj - acc"
    by simp_all
  from p(2) have acc': "acc + ps \<le> obj" by simp
  from Cons.prems(3) have len: "int (Suc i) + int (length tss) = n" by simp
  note ih = Cons.IH [OF rec acc' len]
  have "rest = [] \<Longrightarrow> acc + ps = obj"
  proof -
    assume "rest = []"
    with ih have "tss = []" by simp
    with Cons.prems(3) have "int i = n - 1" by simp
    with p(4) show ?thesis by simp
  qed
  with ih p ss show ?case by auto
qed

lemma sesiones_loop_total:
  assumes al: "\<forall>i acc g p g'. acc \<le> obj \<longrightarrow> paginas i acc g = Inr (p, g') \<longrightarrow>
                 0 \<le> p \<and> p \<le> obj - acc \<and> (acc < obj \<longrightarrow> 1 \<le> p) \<and> (int i = n - 1 \<longrightarrow> p = obj - acc)"
    and tot: "\<forall>i acc g. acc \<le> obj \<longrightarrow> int i < n \<longrightarrow> (\<exists>p g'. paginas i acc g = Inr (p, g'))"
    and np: "np \<noteq> 0"
  shows "acc \<le> obj \<Longrightarrow> int i + int (length tss) = n \<Longrightarrow>
         \<exists>ss g'. sesiones_loop paginas u b np pf gen i acc tss g = Inr (ss, g')"
proof (induction tss arbitrary: i acc g)
  case Nil
  then show ?case by simp
next
  case (Cons ts tss)
  from Cons.prems(2) have "int i < n" by simp
  from tot [rule_format, OF Cons.prems(1) this] obtain ps g1 where pag: "paginas i acc g = Inr (ps, g1)"
    by blast
  from al [rule_format, OF Cons.prems(1) pag] have p: "0 \<le> ps" "acc + ps \<le> obj" by simp_all
  from calcular_duracion_sesion_cases [of ps pf gen g1] p(1) obtain d where
    dur: "calcular_duracion_sesion ps pf gen g1 = Inr (d, g1 \<circ> Suc \<circ> Suc)"
    by auto
  from Cons.prems(2) have "int (Suc i) + int (length tss) = n" by simp
  from Cons.IH [OF p(2) this] obtain rest g3 where
    "sesiones_loop paginas u b np pf gen (Suc i) (acc + ps) tss (g1 \<circ> Suc \<circ> Suc) = Inr (rest, g3)"
    by blast
  with pag dur np show ?case by simp
qed



lemma generar_patron_temporal_sesiones_total:
  "\<exists>tss. generar_patron_temporal_sesiones n f g = Inr (tss, \<lambda>k. g (k + 3 * nat n)) \<and>
         length tss = nat n \<and> fechas_ok n [0 ..< nat n] (ordinal f) tss"
  using patron_loop_total [of n "[0 ..< nat n]" f g]
  by (simp add: generar_patron_temporal_sesiones_def)

lemma sesiones_loop_ok:
  assumes al: "\<forall>i acc g p g'. acc \<le> obj \<longrightarrow> paginas i acc g = Inr (p, g') \<longrightarrow>
                 0 \<le> p \<and> p \<le> obj - acc \<and> (acc < obj \<longrightarrow> 1 \<le> p) \<and> (int i = n - 1 \<longrightarrow> p = obj - acc)"
    and tot: "\<forall>i acc g. acc \<le> obj \<longrightarrow> int i < n \<longrightarrow> (\<exists>p g'. paginas i acc g = Inr (p, g'))"
    and np: "np \<noteq> 0" and obj: "0 \<le> obj" and n: "1 \<le> n" and len: "length tss = nat n"
  shows "\<exists>ss g'. sesiones_loop paginas u b np pf gen 0 0 tss g = Inr (ss, g') \<and>
           int (length ss) = n \<and> map session_start ss = tss \<and> progreso_encadenado 0 ss \<and>
           (\<forall>s \<in> set ss. 5 \<le> duration_minutes s \<and> 0 \<le> pages_read s \<and> progress_end s \<le> obj \<and>
                          (progress_start s < obj \<longrightarrow> 1 \<le> pages_read s)) \<and>
           ss \<noteq> [] \<and> progress_end (last ss) = obj"
proof -
  from n len have l: "int 0 + int (length tss) = n" by simp
  from sesiones_loop_total [where paginas = paginas and obj = obj and n = n, OF al tot np obj l]
  obtain ss g' where run: "sesiones_loop paginas u b np pf gen 0 0 tss g = Inr (ss, g')"
    by blast
  note a = sesiones_loop_paginas [where paginas = paginas and obj = obj and n = n, OF al run obj l]
  note b = sesiones_loop_forma [OF run]
  from a n len have "ss \<noteq> []" by auto
  with a b run n len show ?thesis by auto
qed

lemma num_sesiones_completado_range:
  assumes "(if (np :: int) < 150 then randint 3 8 g
            else if np < 300 then randint 6 15 g
            else if np < 500 then randint 10 25 g
            else randint 15 40 g) = (n, g1)"
  shows "g1 = g \<circ> Suc \<and> 3 \<le> n \<and> n < 40 \<and>
         (np < 150 \<longrightarrow> n < 8) \<and>
         (150 \<le> np \<and> np < 300 \<longrightarrow> 6 \<le> n \<and> n < 15) \<and>
         (300 \<le> np \<and> np < 500 \<longrightarrow> 10 \<le> n \<and> n < 25) \<and>
         (500 \<le> np \<longrightarrow> 15 \<le> n)"
proof -
  consider "np < 150" | "150 \<le> np" "np < 300" | "300 \<le> np" "np < 500" | "500 \<le> np"
    by linarith
  then show ?thesis
  proof cases
    case 1
    with assms have "randint 3 8 g = (n, g1)" by simp
    from randint_range [OF _ this] 1 show ?thesis by simp
  next
    case 2
    with assms have "randint 6 15 g = (n, g1)" by simp
    from randint_range [OF _ this] 2 show ?thesis by simp
  next
    case 3
    with assms have "randint 10 25 g = (n, g1)" by simp
    from randint_range [OF _ this] 3 show ?thesis by simp
  next
    case 4
    with assms have "randint 15 40 g = (n, g1)" by simp
    from randint_range [OF _ this] 4 show ?thesis by simp
  qed
qed

lemma simular_sesiones_completado_ok:
  assumes np: "1 \<le> np"
  shows "\<exists>n g1 dias ss g'.
           (if np < 150 then randint 3 8 g
            else if np < 300 then randint 6 15 g
            else if np < 500 then randint 10 25 g
            else randint 15 40 g) = (n, g1) \<and>
           30 \<le> dias \<and> dias < 365 \<and>
           simular_sesiones_completado h now b u np gen g = Inr (ss, g') \<and>
           int (length ss) = n \<and>
           fechas_ok n [0 ..< nat n] (ordinal now - dias) (map session_start ss) \<and>
           progreso_encadenado 0 ss \<and>
           (\<forall>s \<in> set ss. 5 \<le> duration_minutes s \<and> 0 \<le> pages_read s \<and> progress_end s \<le> np \<and>
                          (progress_start s < np \<longrightarrow> 1 \<le> pages_read s)) \<and>
           ss \<noteq> [] \<and> progress_end (last ss) = np"
proof -
  obtain n g1 where n: "(if np < 150 then randint 3 8 g
            else if np < 300 then randint 6 15 g
            else if np < 500 then randint 10 25 g
            else randint 15 40 g) = (n, g1)" by force
  from num_sesiones_completado_range [OF n] have n1: "1 \<le> n" by simp
  obtain dias g2 where dias: "randint 30 365 g1 = (dias, g2)" by force
  from randint_range [OF _ dias] have db: "30 \<le> dias" "dias < 365" by simp_all
  from generar_patron_temporal_sesiones_total [of n "add_days now (- dias)" g2]
  obtain tss g3 where gen: "generar_patron_temporal_sesiones n (add_days now (- dias)) g2 = Inr (tss, g3)"
    and len: "length tss = nat n"
    and fe: "fechas_ok n [0 ..< nat n] (ordinal (add_days now (- dias))) tss"
    by blast
  from np have np0: "np \<noteq> 0" "0 \<le> np" by simp_all
  have al: "\<forall>i acc g p g'. acc \<le> np \<longrightarrow> paginas_completado np n i acc g = Inr (p, g') \<longrightarrow>
                 0 \<le> p \<and> p \<le> np - acc \<and> (acc < np \<longrightarrow> 1 \<le> p) \<and> (int i = n - 1 \<longrightarrow> p = np - acc)"
    by (intro allI impI paginas_completado_ok)
  have tot: "\<forall>i acc g. acc \<le> np \<longrightarrow> int i < n \<longrightarrow>
                 (\<exists>p g'. paginas_completado np n i acc g = Inr (p, g'))"
    by (intro allI impI paginas_completado_total)
  from sesiones_loop_ok [where paginas = "paginas_completado np n" and obj = np and n = n
      and pf = "determinar_perfil_lector h u" and g = g3 and u = u and b = b and gen = gen,
      OF al tot np0 n1 len]
  obtain ss g' where
    run: "sesiones_loop (paginas_completado np n) u b np (determinar_perfil_lector h u) gen 0 0 tss g3
            = Inr (ss, g')"
    and props: "int (length ss) = n" "map session_start ss = tss" "progreso_encadenado 0 ss"
      "\<forall>s \<in> set ss. 5 \<le> duration_minutes s \<and> 0 \<le> pages_read s \<and> progress_end s \<le> np \<and>
                          (progress_start s < np \<longrightarrow> 1 \<le> pages_read s)"
      "ss \<noteq> []" "progress_end (last ss) = np"
    by blast
  have "simular_sesiones_completado h now b u np gen g = Inr (ss, g')"
    unfolding simular_sesiones_completado_def Let_def
    by (simp only: n dias gen run case_prod_conv bind_r_Inr)
  moreover from fe have "fechas_ok n [0 ..< nat n] (ordinal now - dias) tss"
    by (simp add: add_days_def)
  ultimately show ?thesis using n db props by blast
qed

lemma py_trunc_nonneg:
  assumes "0 \<le> x"
  shows "0 \<le> py_trunc x \<and> real_of_int (py_trunc x) \<le> x \<and> x - 1 < real_of_int (py_trunc x)"
  using assms by (simp add: py_trunc_def)

lemma secuencia_completado:
  assumes np: "1 \<le> np"
  shows "\<exists>n g1 dias ss g'.
           (if np < 150 then randint 3 8 g
            else if np < 300 then randint 6 15 g
            else if np < 500 then randint 10 25 g
            else randint 15 40 g) = (n, g1) \<and>
           simular_sesiones_completado h now b u np gen g = Inr (ss, g') \<and>
           secuencia_de_camino n (ordinal now - dias) np ss"
proof -
  from simular_sesiones_completado_ok [OF np, of g h now b u gen]
  obtain n g1 dias ss g' where
    n: "(if np < 150 then randint 3 8 g
            else if np < 300 then randint 6 15 g
            else if np < 500 then randint 10 25 g
            else randint 15 40 g) = (n, g1)"
    and rest: "simular_sesiones_completado h now b u np gen g = Inr (ss, g')"
      "int (length ss) = n"
      "fechas_ok n [0 ..< nat n] (ordinal now - dias) (map session_start ss)"
      "progreso_encadenado 0 ss"
      "\<forall>s \<in> set ss. 5 \<le> duration_minutes s \<and> 0 \<le> pages_read s \<and> progress_end s \<le> np \<and>
                          (progress_start s < np \<longrightarrow> 1 \<le> pages_read s)"
      "ss \<noteq> []" "progress_end (last ss) = np"
    by blast
  from num_sesiones_completado_range [OF n] have "1 \<le> n" by simp
  with n rest show ?thesis unfolding secuencia_de_camino_def by blast
qed

lemma secuencia_abandono_temprano:
  assumes np: "1 \<le> np"
  shows "\<exists>n dias x ss g'.
           randint 1 5 g = (n, g \<circ> Suc) \<and> 5 / 100 \<le> x \<and> x < 30 / 100 \<and>
           simular_sesiones_abandono_temprano h now b u np gen g = Inr (ss, g') \<and>
           secuencia_de_camino n (ordinal now - dias) (py_trunc (of_int np * x)) ss"
proof -
  obtain n g1 where n: "randint 1 5 g = (n, g1)" by force
  from randint_range [OF _ n] have nb: "1 \<le> n" "n < 5" and g1: "g1 = g \<circ> Suc" by simp_all
  obtain dias g2 where dias: "randint 30 180 g1 = (dias, g2)" by force
  from generar_patron_temporal_sesiones_total [of n "add_days now (- dias)" g2]
  obtain tss g3 where gen: "generar_patron_temporal_sesiones n (add_days now (- dias)) g2 = Inr (tss, g3)"
    and len: "length tss = nat n"
    and fe: "fechas_ok n [0 ..< nat n] (ordinal (add_days now (- dias))) tss"
    by blast
  obtain x g4 where x: "uniform (5 / 100) (30 / 100) g3 = (x, g4)" by force
  from uniform_range [OF _ x] have xb: "5 / 100 \<le> x" "x < 30 / 100" by simp_all
  define obj where "obj = py_trunc (of_int np * x)"
  have "0 \<le> real_of_int np * x" using np xb by simp
  from py_trunc_nonneg [OF this] have obj0: "0 \<le> obj" by (simp add: obj_def)
  from np have np0: "np \<noteq> 0" by simp
  have al: "\<forall>i acc g p g'. acc \<le> obj \<longrightarrow> paginas_abandono_temprano obj n i acc g = Inr (p, g') \<longrightarrow>
                 0 \<le> p \<and> p \<le> obj - acc \<and> (acc < obj \<longrightarrow> 1 \<le> p) \<and> (int i = n - 1 \<longrightarrow> p = obj - acc)"
    by (intro allI impI paginas_abandono_temprano_ok)
  have tot: "\<forall>i acc g. acc \<le> obj \<longrightarrow> int i < n \<longrightarrow>
                 (\<exists>p g'. paginas_abandono_temprano obj n i acc g = Inr (p, g'))"
    by (intro allI impI paginas_abandono_temprano_total)
  from sesiones_loop_ok [where paginas = "paginas_abandono_temprano obj n" and obj = obj and n = n
      and pf = "determinar_perfil_lector h u" and g = g4 and u = u and b = b and gen = gen
      and np = np, OF al tot np0 obj0 nb(1) len]
  obtain ss g' where
    run: "sesiones_loop (paginas_abandono_temprano obj n) u b np (determinar_perfil_lector h u) gen
            0 0 tss g4 = Inr (ss, g')"
    and props: "int (length ss) = n" "map session_start ss = tss" "progreso_encadenado 0 ss"
      "\<forall>s \<in> set ss. 5 \<le> duration_minutes s \<and> 0 \<le> pages_read s \<and> progress_end s \<le> obj \<and>
                          (progress_start s < obj \<longrightarrow> 1 \<le> pages_read s)"
      "ss \<noteq> []" "progress_end (last ss) = obj"
    by blast
  have "simular_sesiones_abandono_temprano h now b u np gen g = Inr (ss, g')"
    unfolding simular_sesiones_abandono_temprano_def Let_def
    using run unfolding obj_def
    by (simp only: n dias gen x case_prod_conv bind_r_Inr)
  moreover from fe have "fechas_ok n [0 ..< nat n] (ordinal now - dias) tss"
    by (simp add: add_days_def)
  ultimately have "simular_sesiones_abandono_temprano h now b u np gen g = Inr (ss, g') \<and>
      secuencia_de_camino n (ordinal now - dias) obj ss"
    using props nb unfolding secuencia_de_camino_def by simp
  with n g1 xb show ?thesis unfolding obj_def by blast
qed

lemma secuencia_abandono_medio:
  assumes np: "1 \<le> np"
  shows "\<exists>n dias x ss g'.
           randint 5 15 g = (n, g \<circ> Suc) \<and> 30 / 100 \<le> x \<and> x < 70 / 100 \<and>
           simular_sesiones_abandono_medio h now b u np gen g = Inr (ss, g') \<and>
           secuencia_de_camino n (ordinal now - dias) (py_trunc (of_int np * x)) ss"
proof -
  obtain n g1 where n: "randint 5 15 g = (n, g1)" by force
  from randint_range [OF _ n] have nb: "1 \<le> n" "n < 15" and g1: "g1 = g \<circ> Suc" by simp_all
  obtain dias g2 where dias: "randint 60 300 g1 = (dias, g2)" by force
  from generar_patron_temporal_sesiones_total [of n "add_days now (- dias)" g2]
  obtain tss g3 where gen: "generar_patron_temporal_sesiones n (add_days now (- dias)) g2 = Inr (tss, g3)"
    and len: "length tss = nat n"
    and fe: "fechas_ok n [0 ..< nat n] (ordinal (add_days now (- dias))) tss"
    by blast
  obtain x g4 where x: "uniform (30 / 100) (70 / 100) g3 = (x, g4)" by force
  from uniform_range [OF _ x] have xb: "30 / 100 \<le> x" "x < 70 / 100" by simp_all
  define obj where "obj = py_trunc (of_int np * x)"
  have "0 \<le> real_of_int np * x" using np xb by simp
  from py_trunc_nonneg [OF this] have obj0: "0 \<le> obj" by (simp add: obj_def)
  from np have np0: "np \<noteq> 0" by simp
  have al: "\<forall>i acc g p g'. acc \<le> obj \<longrightarrow> paginas_abandono_medio obj n i acc g = Inr (p, g') \<longrightarrow>
                 0 \<le> p \<and> p \<le> obj - acc \<and> (acc < obj \<longrightarrow> 1 \<le> p) \<and> (int i = n - 1 \<longrightarrow> p = obj - acc)"
    by (intro allI impI paginas_abandono_medio_ok)
  have tot: "\<forall>i acc g. acc \<le> obj \<longrightarrow> int i < n \<longrightarrow>
                 (\<exists>p g'. paginas_abandono_medio obj n i acc g = Inr (p, g'))"
    by (intro allI impI paginas_abandono_medio_total)
  from sesiones_loop_ok [where paginas = "paginas_abandono_medio obj n" and obj = obj and n = n
      and pf = "determinar_perfil_lector h u" and g = g4 and u = u and b = b and gen = gen
      and np = np, OF al tot np0 obj0 nb(1) len]
  obtain ss g' where
    run: "sesiones_loop (paginas_abandono_medio obj n) u b np (determinar_perfil_lector h u) gen
            0 0 tss g4 = Inr (ss, g')"
    and props: "int (length ss) = n" "map session_start ss = tss" "progreso_encadenado 0 ss"
      "\<forall>s \<in> set ss. 5 \<le> duration_minutes s \<and> 0 \<le> pages_read s \<and> progress_end s \<le> obj \<and>
                          (progress_start s < obj \<longrightarrow> 1 \<le> pages_read s)"
      "ss \<noteq> []" "progress_end (last ss) = obj"
    by blast
  have "simular_sesiones_abandono_medio h now b u np gen g = Inr (ss, g')"
    unfolding simular_sesiones_abandono_medio_def Let_def
    using run unfolding obj_def
    by (simp only: n dias gen x case_prod_conv bind_r_Inr)
  moreover from fe have "fechas_ok n [0 ..< nat n] (ordinal now - dias) tss"
    by (simp add: add_days_def)
  ultimately have "simular_sesiones_abandono_medio h now b u np gen g = Inr (ss, g') \<and>
      secuencia_de_camino n (ordinal now - dias) obj ss"
    using props nb unfolding secuencia_de_camino_def by simp
  with n g1 xb show ?thesis unfolding obj_def by blast
qed


lemma convertir_num_pages_ge1: "convertir_num_pages fl v = Inr n \<Longrightarrow> 1 \<le> n"
  by (auto simp: convertir_num_pages_def split: sum.splits error.splits if_splits)

lemma simular_para_interaccion_camino:
  assumes "simular_para_interaccion fl h now r g = Inr (ss, g')"
  shows "ss = [] \<or>
         (\<exists>np gen g0 bid uid. 1 \<le> np \<and>
            (simular_sesiones_completado h now bid uid np gen g0 = Inr (ss, g') \<or>
             simular_sesiones_abandono_temprano h now bid uid np gen g0 = Inr (ss, g') \<or>
             simular_sesiones_abandono_medio h now bid uid np gen g0 = Inr (ss, g')))"
proof -
  from assms obtain bid uid where ids: "row_book_id r = Some bid" "row_user_id r = Some uid"
    by (auto simp: simular_para_interaccion_def split: option.splits)
  from assms ids obtain np where
    np: "convertir_num_pages fl (row_get (row_num_pages r) (PyInt 300)) = Inr np"
    by (cases "convertir_num_pages fl (row_get (row_num_pages r) (PyInt 300))")
       (auto simp: simular_para_interaccion_def)
  from convertir_num_pages_ge1 [OF np] have np1: "1 \<le> np" .
  define gen where "gen = row_get (row_genres r) (PyStr ''default'')"
  define rating where "rating = row_get (row_rating r) (PyInt 3)"
  define is_read where "is_read = row_get (row_is_read r) (PyInt 0)"
  define P where "P = prob_aband_de_fila rating (row_get (row_abandono_score r) (PyInt 0))
      (row_get (row_engagement_score r) (PyInt 0)) (row_get (row_complejidad_score r) (PyInt 0))
      (row_get (row_ritmo_score r) (PyInt 0))"
  define X where "X = (if py_eq is_read 1 then map_sum id (\<lambda>f. f_ge f 4) (py_num rating) else Inr False)"
  define Y where "Y = map_sum id (\<lambda>f. f_le f 2) (py_num rating)"
  have body: "simular_para_interaccion fl h now r g =
     (if py_eq is_read 0 \<and> pd_isna rating then Inr ([], g)
      else bind_r X (\<lambda>alto.
        if alto then simular_sesiones_completado h now bid uid np gen g
        else bind_r Y (\<lambda>bajo.
          if bajo then simular_sesiones_abandono_temprano h now bid uid np gen g
          else bind_r P (\<lambda>(prob_aband, engagement).
            if frac (g 0) < prob_aband
            then if f_lt engagement (- (2 / 10))
                 then simular_sesiones_abandono_temprano h now bid uid np gen (g \<circ> Suc)
                 else simular_sesiones_abandono_medio h now bid uid np gen (g \<circ> Suc)
            else simular_sesiones_completado h now bid uid np gen (g \<circ> Suc)))))"
    unfolding simular_para_interaccion_def Let_def random_sample_def gen_def rating_def
      is_read_def P_def X_def Y_def
    by (simp only: ids np option.case bind_r_Inr case_prod_conv)
  have
    "ss = [] \<or>
     (\<exists>g0. simular_sesiones_completado h now bid uid np gen g0 = Inr (ss, g') \<or>
           simular_sesiones_abandono_temprano h now bid uid np gen g0 = Inr (ss, g') \<or>
           simular_sesiones_abandono_medio h now bid uid np gen g0 = Inr (ss, g'))"
  proof (cases "py_eq is_read 0 \<and> pd_isna rating")
    case True
    with assms body show ?thesis by simp
  next
    case False
    with assms body obtain alto where alto: "X = Inr alto"
      by (cases X) auto
    show ?thesis
    proof (cases alto)
      case True
      with assms body False alto show ?thesis by auto
    next
      case nalto: False
      with assms body False alto obtain bajo where bajo: "Y = Inr bajo"
        by (cases Y) auto
      show ?thesis
      proof (cases bajo)
        case True
        with assms body False alto nalto bajo show ?thesis by auto
      next
        case nbajo: False
        with assms body False alto nalto bajo obtain prob eng where pr: "P = Inr (prob, eng)"
          by (cases P) auto
        from assms body False alto nalto bajo nbajo pr show ?thesis
          by (cases "frac (g 0) < prob"; cases "f_lt eng (- (2 / 10))") auto
      qed
    qed
  qed
  with np1 show ?thesis by blast
qed

lemma simular_para_interaccion_secuencia:
  assumes "simular_para_interaccion fl h now r g = Inr (ss, g')"
  shows "ss = [] \<or> (\<exists>n d obj. secuencia_de_camino n d obj ss)"
proof -
  from simular_para_interaccion_camino [OF assms] consider "ss = []"
    | np gen g0 bid uid where "1 \<le> np"
        "simular_sesiones_completado h now bid uid np gen g0 = Inr (ss, g')"
    | np gen g0 bid uid where "1 \<le> np"
        "simular_sesiones_abandono_temprano h now bid uid np gen g0 = Inr (ss, g')"
    | np gen g0 bid uid where "1 \<le> np"
        "simular_sesiones_abandono_medio h now bid uid np gen g0 = Inr (ss, g')"
    by blast
  then show ?thesis
  proof cases
    case 1
    then show ?thesis by simp
  next
    case 2
    from secuencia_completado [OF 2(1), of g0 h now bid uid gen] 2(2) show ?thesis by auto
  next
    case 3
    from secuencia_abandono_temprano [OF 3(1), of g0 h now bid uid gen] 3(2) show ?thesis by auto
  next
    case 4
    from secuencia_abandono_medio [OF 4(1), of g0 h now bid uid gen] 4(2) show ?thesis by auto
  qed
qed

lemmas sim_defs = simular_para_interaccion_def row_get_def convertir_num_pages_def
  simular_sesiones_completado_def simular_sesiones_abandono_temprano_def
  simular_sesiones_abandono_medio_def determinar_perfil_lector_def
  generar_patron_temporal_sesiones_def paso_temporal_def randint_def uniform_def normal_def
  choice_def random_sample_def calcular_duracion_sesion_def palabras_de_genero_def
  palabras_por_pagina_def paginas_completado_def paginas_abandono_temprano_def
  paginas_abandono_medio_def paginas_normal_def py_trunc_def add_days_def weekday_def
  Let_def comp_def

lemma rango_3: "[0 ..< 3] = [0 :: nat, 1, 2]"
  by (simp add: eval_nat_numeral)

lemma rango_4: "[0 ..< 4] = [0 :: nat, 1, 2, 3]"
  by (simp add: eval_nat_numeral)

lemma ejemplo_una_pagina:
  "simular_para_interaccion (\<lambda>s. None) (\<lambda>s. 0) reloj_ej fila_ej (\<lambda>k. 0) = Inr (sesiones_ej, \<lambda>k. 0)"
  by (simp add: sim_defs fila_ej_def reloj_ej_def sesiones_ej_def rango_3)

lemma ejemplo_desorden:
  "map_sum id (map session_start \<circ> fst)
     (simular_para_interaccion (\<lambda>s. None) (\<lambda>s. 0) reloj_ej fila_100 cinta_desorden)
   = Inr inicios_desorden"
  by (simp add: sim_defs fila_100_def fila_ej_def reloj_ej_def cinta_desorden_def
      inicios_desorden_def rango_4)

lemma simular_leido_rating5:
  "simular_para_interaccion fl h now
     \<lparr>row_book_id = Some b, row_user_id = Some u, row_is_read = Some (PyInt 1),
      row_rating = Some (PyInt 5), row_num_pages = Some (PyInt 320), row_genres = gen,
      row_abandono_score = sa, row_engagement_score = se, row_complejidad_score = sc,
      row_ritmo_score = sr\<rparr> g
   = simular_sesiones_completado h now b u 320 (row_get gen (PyStr ''default'')) g"
  by (simp add: simular_para_interaccion_def row_get_def convertir_num_pages_def py_trunc_def)

lemma secuencia_fechas:
  assumes sec: "secuencia_de_camino n d obj ss" and k: "Suc k < length ss"
  shows "ordinal (session_start (ss ! k)) \<le> ordinal (session_start (ss ! Suc k)) \<and>
         (3 * int (length ss) \<le> 10 * int (Suc k) \<longrightarrow>
            dt_less (session_start (ss ! k)) (session_start (ss ! Suc k)))"
proof -
  from sec have len: "int (length ss) = n"
    and fe: "fechas_ok n [0 ..< nat n] d (map session_start ss)"
    by (simp_all add: secuencia_de_camino_def)
  from k have k': "Suc k < length (map session_start ss)" by simp
  from len k have kn: "Suc k < nat n" by simp
  from fechas_ok_nth [OF fe k'] k kn have
    ord: "ordinal (session_start (ss ! k)) \<le> ordinal (session_start (ss ! Suc k))"
    and st: "real (Suc k) < of_int n * (3 / 10) \<or>
             ordinal (session_start (ss ! k)) < ordinal (session_start (ss ! Suc k))"
    by simp_all
  have "dt_less (session_start (ss ! k)) (session_start (ss ! Suc k))"
    if "3 * int (length ss) \<le> 10 * int (Suc k)"
  proof -
    from that len have "3 * n \<le> 10 * int (Suc k)" by simp
    then have "real_of_int (3 * n) \<le> real_of_int (10 * int (Suc k))" by (simp only: of_int_le_iff)
    then have "\<not> real (Suc k) < of_int n * (3 / 10)" by simp
    with st show ?thesis by (simp add: dt_less_def)
  qed
  with ord show ?thesis by blast
qed






section \<open>The claims\<close>

text \<open>
  C1. In the sessions made for one interaction the progress values chain: the first
  session starts at progress 0, every later session starts at the progress where the
  session before it ended, and every session reads \<open>progress_end - progress_start\<close>
  pages.
\<close>

theorem progreso_encadenado_de_interaccion:
  assumes "simular_para_interaccion fl h now r g = Inr (ss, g')"
  shows "(ss \<noteq> [] \<longrightarrow> progress_start (ss ! 0) = 0) \<and>
         (\<forall>k. Suc k < length ss \<longrightarrow> progress_start (ss ! Suc k) = progress_end (ss ! k)) \<and>
         (\<forall>s \<in> set ss. pages_read s = progress_end s - progress_start s)"
proof (cases "ss = []")
  case True
  then show ?thesis by simp
next
  case False
  with simular_para_interaccion_secuencia [OF assms] obtain n d obj where
    "secuencia_de_camino n d obj ss" by blast
  then have c: "progreso_encadenado 0 ss" by (simp add: secuencia_de_camino_def)
  from progreso_encadenado_first [OF c] progreso_encadenado_nth [OF c]
    progreso_encadenado_pages [OF c]
  show ?thesis by blast
qed

theorem progreso_encadenado_de_interaccion_witness:
  "simular_para_interaccion (\<lambda>s. None) (\<lambda>s. 0) reloj_ej fila_ej (\<lambda>k. 0) = Inr (sesiones_ej, \<lambda>k. 0) \<and>
   progress_start (sesiones_ej ! 0) = 0 \<and>
   progress_start (sesiones_ej ! 1) = progress_end (sesiones_ej ! 0) \<and>
   progress_start (sesiones_ej ! 2) = progress_end (sesiones_ej ! 1) \<and>
   pages_read (sesiones_ej ! 0) = progress_end (sesiones_ej ! 0) - progress_start (sesiones_ej ! 0)"
proof -
  note ev = ejemplo_una_pagina
  have len: "length sesiones_ej = 3" by (simp add: sesiones_ej_def)
  have mem: "sesiones_ej ! 0 \<in> set sesiones_ej" by (simp add: sesiones_ej_def)
  from progreso_encadenado_de_interaccion [OF ev] len mem ev show ?thesis
    by (auto simp: eval_nat_numeral)
qed






text \<open>
  C4, as the code has it. From one session to the next the calendar date of
  \<open>session_start\<close> never decreases, and \<open>session_start\<close> strictly increases into every
  session whose position \<open>i\<close> (from 0) is past the first 30 percent, \<open>i \<ge> 0.3 * n\<close> for
  \<open>n\<close> sessions: such a session is at least one day after the one before it.
\<close>

theorem fechas_de_sesion_no_decrecen:
  assumes "simular_para_interaccion fl h now r g = Inr (ss, g')"
  shows "\<forall>k. Suc k < length ss \<longrightarrow>
           ordinal (session_start (ss ! k)) \<le> ordinal (session_start (ss ! Suc k)) \<and>
           (3 * int (length ss) \<le> 10 * int (Suc k) \<longrightarrow>
              dt_less (session_start (ss ! k)) (session_start (ss ! Suc k)))"
proof (intro allI impI)
  fix k
  assume k: "Suc k < length ss"
  then have "ss \<noteq> []" by auto
  with simular_para_interaccion_secuencia [OF assms] obtain n d obj where
    "secuencia_de_camino n d obj ss" by blast
  from secuencia_fechas [OF this k]
  show "ordinal (session_start (ss ! k)) \<le> ordinal (session_start (ss ! Suc k)) \<and>
           (3 * int (length ss) \<le> 10 * int (Suc k) \<longrightarrow>
              dt_less (session_start (ss ! k)) (session_start (ss ! Suc k)))" .
qed

theorem fechas_de_sesion_no_decrecen_witness:
  "simular_para_interaccion (\<lambda>s. None) (\<lambda>s. 0) reloj_ej fila_ej (\<lambda>k. 0) = Inr (sesiones_ej, \<lambda>k. 0) \<and>
   ordinal (session_start (sesiones_ej ! 0)) \<le> ordinal (session_start (sesiones_ej ! 1)) \<and>
   dt_less (session_start (sesiones_ej ! 0)) (session_start (sesiones_ej ! 1)) \<and>
   dt_less (session_start (sesiones_ej ! 1)) (session_start (sesiones_ej ! 2))"
proof -
  note ev = ejemplo_una_pagina
  have len: "length sesiones_ej = 3" by (simp add: sesiones_ej_def)
  from fechas_de_sesion_no_decrecen [OF ev, rule_format, of 0]
    fechas_de_sesion_no_decrecen [OF ev, rule_format, of 1] len ev
  show ?thesis by (simp add: numeral_2_eq_2)
qed

text \<open>
  C4 as stated fails: among the first 30 percent of the sessions the gap may be 0 days
  and the hour is drawn anew, so the second session of this four-session sequence starts
  at 07:00 of the day on which the first one starts at 23:00.
\<close>

theorem inicio_de_sesion_decrece:
  "map_sum id (map session_start \<circ> fst)
     (simular_para_interaccion (\<lambda>s. None) (\<lambda>s. 0) reloj_ej fila_100 cinta_desorden)
   = Inr inicios_desorden \<and>
   dt_less (inicios_desorden ! 1) (inicios_desorden ! 0) \<and>
   \<not> dt_less (inicios_desorden ! 0) (inicios_desorden ! 1)"
  using ejemplo_desorden by (simp add: inicios_desorden_def dt_less_def)



text \<open>
  C6. The profile is read off \<open>hash(str(user_id)) mod 100\<close> with the cut points 20 and 75,
  and \<open>hash\<close> on strings is salted anew in each Python process: the same user identifier 7
  is a fast reader in a process whose hash of \<open>''7''\<close> is 5 modulo 100 and a slow one in
  a process where it is 80. The profile is not a function of the identifier across runs.
\<close>

theorem determinar_perfil_lector_depende_del_hash:
  "determinar_perfil_lector (\<lambda>s. 5) 7 = Rapido \<and> determinar_perfil_lector (\<lambda>s. 80) 7 = Lento"
  by (simp add: determinar_perfil_lector_def)

text \<open>
  C7. A row marked as read whose rating is missing (NaN) passes the no-data test, fails the
  two rating comparisons and reaches \<open>int(rating)\<close>, which raises ValueError: the
  simulation of one interaction raises on this row, whatever the clock, the hash and the
  random draws are. So does it on a row whose page count is infinite: \<open>int(float(x))\<close>
  raises OverflowError, which the guard around the conversion does not catch.
\<close>

theorem simular_para_interaccion_rating_nan:
  "simular_para_interaccion fl h now
     \<lparr>row_book_id = Some 1, row_user_id = Some 1, row_is_read = Some (PyInt 1),
      row_rating = Some (PyFloat NaN), row_num_pages = Some (PyInt 300),
      row_genres = Some (PyStr ''fiction''), row_abandono_score = Some (PyInt 0),
      row_engagement_score = Some (PyInt 0), row_complejidad_score = Some (PyInt 0),
      row_ritmo_score = Some (PyInt 0)\<rparr> g = Inl ValueError \<and>
   simular_para_interaccion fl h now
     \<lparr>row_book_id = Some 1, row_user_id = Some 1, row_is_read = Some (PyInt 1),
      row_rating = Some (PyInt 5), row_num_pages = Some (PyFloat PosInf),
      row_genres = Some (PyStr ''fiction''), row_abandono_score = Some (PyInt 0),
      row_engagement_score = Some (PyInt 0), row_complejidad_score = Some (PyInt 0),
      row_ritmo_score = Some (PyInt 0)\<rparr> g = Inl OverflowError"
  by (simp add: simular_para_interaccion_def row_get_def convertir_num_pages_def
      prob_aband_de_fila_def int_de_rating_def py_trunc_def)



text \<open>
  C9, as the code has it. No session reads a negative number of pages, and a session
  reads at least one page whenever it starts below the progress the sequence ends at:
  a session reads 0 pages exactly when the target of the path is already reached.
\<close>

theorem paginas_por_sesion:
  assumes "simular_para_interaccion fl h now r g = Inr (ss, g')"
  shows "\<forall>s \<in> set ss. 0 \<le> pages_read s \<and>
           (progress_start s < progress_end (last ss) \<longrightarrow> 1 \<le> pages_read s)"
proof (cases "ss = []")
  case True
  then show ?thesis by simp
next
  case False
  with simular_para_interaccion_secuencia [OF assms] obtain n d obj where
    "secuencia_de_camino n d obj ss" by blast
  then show ?thesis unfolding secuencia_de_camino_def by auto
qed

theorem paginas_por_sesion_witness:
  "simular_para_interaccion (\<lambda>s. None) (\<lambda>s. 0) reloj_ej fila_ej (\<lambda>k. 0) = Inr (sesiones_ej, \<lambda>k. 0) \<and>
   0 \<le> pages_read (sesiones_ej ! 1) \<and> 1 \<le> pages_read (sesiones_ej ! 0)"
proof -
  note ev = ejemplo_una_pagina
  have mem: "sesiones_ej ! 0 \<in> set sesiones_ej" "sesiones_ej ! 1 \<in> set sesiones_ej"
    by (simp_all add: sesiones_ej_def)
  have st: "progress_start (sesiones_ej ! 0) < progress_end (last sesiones_ej)"
    by (simp add: sesiones_ej_def)
  from paginas_por_sesion [OF ev] mem st ev show ?thesis by blast
qed

text \<open>
  C9 as stated fails: for the one-page book the sessions after the first read 0 pages.
\<close>

theorem paginas_cero_contraejemplo:
  "simular_para_interaccion (\<lambda>s. None) (\<lambda>s. 0) reloj_ej fila_ej (\<lambda>k. 0) = Inr (sesiones_ej, \<lambda>k. 0) \<and>
   sesiones_ej ! 1 \<in> set sesiones_ej \<and> pages_read (sesiones_ej ! 1) = 0"
  using ejemplo_una_pagina by (simp add: sesiones_ej_def)

text \<open>
  C10, as the code has it. A row with rating 5, read, and 320 pages takes the completed
  path, which returns between 10 and 24 sessions (320 pages fall in the bracket of 300 to
  499 pages, \<open>randint(10, 25)\<close>) and whose last \<open>progress_end\<close> is 320.
\<close>

theorem escenario_320_paginas:
  "simular_para_interaccion fl h now
     \<lparr>row_book_id = Some b, row_user_id = Some u, row_is_read = Some (PyInt 1),
      row_rating = Some (PyInt 5), row_num_pages = Some (PyInt 320), row_genres = gen,
      row_abandono_score = sa, row_engagement_score = se, row_complejidad_score = sc,
      row_ritmo_score = sr\<rparr> g
   = simular_sesiones_completado h now b u 320 (row_get gen (PyStr ''default'')) g \<and>
   (\<exists>ss g'. simular_sesiones_completado h now b u 320 (row_get gen (PyStr ''default'')) g
              = Inr (ss, g') \<and>
            10 \<le> length ss \<and> length ss \<le> 24 \<and> progress_end (last ss) = 320)"
proof -
  have np: "(1 :: int) \<le> 320" by simp
  from secuencia_completado [OF np, of g h now b u "row_get gen (PyStr ''default'')"]
  obtain n g1 dias ss g' where
    n: "randint 10 25 g = (n, g1)"
    and run: "simular_sesiones_completado h now b u 320 (row_get gen (PyStr ''default'')) g = Inr (ss, g')"
    and sec: "secuencia_de_camino n (ordinal now - dias) 320 ss"
    by auto
  from randint_range [OF _ n] have "10 \<le> n" "n < 25" by simp_all
  moreover from sec have "int (length ss) = n" "progress_end (last ss) = 320"
    by (simp_all add: secuencia_de_camino_def)
  ultimately have "10 \<le> length ss \<and> length ss \<le> 24 \<and> progress_end (last ss) = 320" by auto
  with run simular_leido_rating5 show ?thesis by blast
qed

theorem escenario_320_paginas_witness:
  "\<exists>ss g'. simular_para_interaccion (\<lambda>s. None) (\<lambda>s. 0) reloj_ej
       \<lparr>row_book_id = Some 1, row_user_id = Some 7, row_is_read = Some (PyInt 1),
        row_rating = Some (PyInt 5), row_num_pages = Some (PyInt 320),
        row_genres = Some (PyStr ''fiction''),
        row_abandono_score = None, row_engagement_score = None, row_complejidad_score = None,
        row_ritmo_score = None\<rparr> (\<lambda>k. 0) = Inr (ss, g') \<and>
      10 \<le> length ss \<and> length ss \<le> 24 \<and> progress_end (last ss) = 320"
  using escenario_320_paginas [of "\<lambda>s. None" "\<lambda>s. 0" reloj_ej 1 7 "Some (PyStr ''fiction'')"
      None None None None "\<lambda>k. 0"]
  by auto

text \<open>
  C10 as stated fails: with every raw draw at 0.99 the sequence has 24 sessions, more
  than 15.
\<close>

theorem escenario_320_paginas_24_sesiones:
  "map_sum id (length \<circ> fst)
     (simular_para_interaccion (\<lambda>s. None) (\<lambda>s. 0) reloj_ej
        \<lparr>row_book_id = Some 1, row_user_id = Some 7, row_is_read = Some (PyInt 1),
         row_rating = Some (PyInt 5), row_num_pages = Some (PyInt 320),
         row_genres = Some (PyStr ''fiction''),
         row_abandono_score = None, row_engagement_score = None, row_complejidad_score = None,
         row_ritmo_score = None\<rparr> (\<lambda>k. 99 / 100))
   = Inr 24"
proof -
  have np: "(1 :: int) \<le> 320" by simp
  from secuencia_completado [OF np, of "\<lambda>k. 99 / 100" "\<lambda>s. 0" reloj_ej 1 7 "PyStr ''fiction''"]
  obtain n g1 dias ss g' where
    n: "randint 10 25 (\<lambda>k. 99 / 100) = (n, g1)"
    and run: "simular_sesiones_completado (\<lambda>s. 0) reloj_ej 1 7 320 (PyStr ''fiction'') (\<lambda>k. 99 / 100)
                = Inr (ss, g')"
    and sec: "secuencia_de_camino n (ordinal reloj_ej - dias) 320 ss"
    by auto
  have "frac (99 / 100 :: real) = 99 / 100" by (simp add: frac_eq)
  with n have "n = 24" by (simp add: randint_def random_sample_def)
  with sec have "length ss = 24" by (simp add: secuencia_de_camino_def)
  with run show ?thesis by (simp add: simular_leido_rating5 row_get_def)
qed


end
